theory Spec2Isabelle
  imports Complex_Main
begin

section \<open>SmartSparse: importance scoring and global thresholding\<close>

text \<open>
  The development follows the final definition of the class \<open>SmartSparsePruner\<close> in
  \<open>finalsmartsparse.py\<close> (the two earlier definitions of the class in the same notebook
  are the same code without the adaptive branch of the scoring loop).

  A tensor is modelled by the list of its elements in flattening order: every operation
  of the pruner is either elementwise or a reduction over all elements, so the shape
  plays no part beyond the number of elements.  Tensor entries are real numbers: the
  rounding of floating-point arithmetic is not modelled, and where the floating-point
  result would be an infinity or a NaN the model returns the error value
  \<open>Non_finite\<close> instead of a tensor.
\<close>

type_synonym tensor = "real list"

datatype error =
    Empty_reduction
  | Non_finite
  | Shape_mismatch
  | Cat_empty_list
  | Topk_out_of_range
  | Index_out_of_bounds

subsection \<open>Reductions\<close>

definition mean :: "tensor \<Rightarrow> real" where
  "mean xs = sum_list xs / real (length xs)"

text \<open>\<open>Tensor.std()\<close> is the unbiased estimator (Bessel's correction).\<close>

definition std :: "tensor \<Rightarrow> real" where
  "std xs = sqrt (sum_list (map (\<lambda>x. (x - mean xs)\<^sup>2) xs) / (real (length xs) - 1))"

text \<open>\<open>torch.round\<close> rounds halfway cases to the nearest even integer.\<close>

definition round_half_even :: "real \<Rightarrow> int" where
  "round_half_even x =
     (let f = \<lfloor>x\<rfloor>; d = x - of_int f
      in if d < 1 / 2 then f
         else if 1 / 2 < d then f + 1
         else if even f then f else f + 1)"

subsection \<open>The estimators and the normalizer\<close>

text \<open>
  \<open>_normalize\<close>: the standard deviation of a single element is NaN (zero degrees of
  freedom), and so is every entry of the result; the empty tensor stays empty.
\<close>

definition normalize :: "tensor \<Rightarrow> error + tensor" where
  "normalize score =
     (if score = [] then Inr []
      else if length score = 1 then Inl Non_finite
      else let m = mean score; s = std score + 1 / 10 ^ 8
           in Inr (map (\<lambda>x. (x - m) / s) score))"

text \<open>
  \<open>_compute_pqi\<close>: \<open>weight.min()\<close> raises on a tensor without elements; with
  \<open>bits = 0\<close> the divisor \<open>2**bits - 1\<close> is zero and the scale is not finite.
\<close>

definition compute_pqi :: "tensor \<Rightarrow> nat \<Rightarrow> error + tensor" where
  "compute_pqi weight bits =
     (if weight = [] then Inl Empty_reduction
      else if bits = 0 then Inl Non_finite
      else let qmin = Min (set weight); qmax = Max (set weight);
               scale = (qmax - qmin) / (2 ^ bits - 1)
           in if scale < 1 / 10 ^ 9 then Inr (replicate (length weight) 0)
              else Inr (map (\<lambda>x. (x - (real_of_int (round_half_even ((x - qmin) / scale)) * scale + qmin))\<^sup>2)
                          weight))"

definition compute_movement :: "tensor \<Rightarrow> tensor" where
  "compute_movement grad = map abs grad"

text \<open>
  \<open>_compute_hessian\<close>: a gradient has the shape of its parameter; the model checks it.
\<close>

definition compute_hessian :: "tensor \<Rightarrow> tensor \<Rightarrow> error + tensor" where
  "compute_hessian weight grad =
     (if length weight \<noteq> length grad then Inl Shape_mismatch
      else Inr (map2 (\<lambda>w g. w\<^sup>2 / (2 * max (g\<^sup>2) (1 / 10 ^ 6))) weight grad))"

subsection \<open>Entropy and the adaptive fusion weights\<close>

text \<open>
  \<open>compute_entropy\<close>: \<open>t.min()\<close> raises on a tensor without elements.  Both divisors are
  positive and so is the argument of the logarithm, whatever the tensor.
\<close>

definition compute_entropy :: "tensor \<Rightarrow> error + real" where
  "compute_entropy t =
     (if t = [] then Inl Empty_reduction
      else let lo = Min (set t); hi = Max (set t);
               probs = map (\<lambda>x. (x - lo) / (hi - lo + 1 / 10 ^ 8)) t;
               probs = map (\<lambda>p. p / (sum_list probs + 1 / 10 ^ 8)) probs
           in Inr (- sum_list (map (\<lambda>p. p * ln (p + 1 / 10 ^ 8)) probs)))"

text \<open>
  The adaptive branch of the scoring loop.  The three draws of \<open>torch.randn(3)\<close> are a
  parameter.  The reciprocal of an entropy that is zero is an infinity.
\<close>

type_synonym noise = "real \<times> real \<times> real"

definition adaptive_weights :: "tensor \<Rightarrow> tensor \<Rightarrow> tensor \<Rightarrow> noise \<Rightarrow> error + real \<times> real \<times> real" where
  "adaptive_weights pqi move hess randn =
     (case compute_entropy pqi of Inl e \<Rightarrow> Inl e | Inr E_pqi \<Rightarrow>
      case compute_entropy move of Inl e \<Rightarrow> Inl e | Inr E_move \<Rightarrow>
      case compute_entropy hess of Inl e \<Rightarrow> Inl e | Inr E_hess \<Rightarrow>
        if E_pqi = 0 \<or> E_move = 0 \<or> E_hess = 0 then Inl Non_finite
        else let (z1, z2, z3) = randn;
                 w1 = max (1 / E_pqi + z1 * (1 / 100)) (1 / 100);
                 w2 = max (1 / E_move + z2 * (1 / 100)) (1 / 100);
                 w3 = max (1 / E_hess + z3 * (1 / 100)) (1 / 100);
                 total = w1 + w2 + w3
             in Inr (w1 / total, w2 / total, w3 / total))"

subsection \<open>The model and the pruner\<close>

text \<open>
  Parameters live in a store: a module refers to its parameters by address, so that two
  modules can share one parameter (tied weights), and \<open>mul_\<close> on the data of a parameter
  is seen through every module that refers to it.  The model is the sequence produced by
  \<open>named_modules()\<close>; its names are pairwise distinct.
\<close>

type_synonym addr = nat

datatype module =
    Linear (weight: addr) (bias: "addr option")
  | Other (params: "addr list")

type_synonym heap = "addr \<Rightarrow> tensor"

text \<open>
  The gradients that \<open>zero_grad\<close>, the forward pass and \<open>loss.backward()\<close> leave on the
  parameters: the network itself is outside the development.
\<close>

type_synonym grads = "addr \<Rightarrow> tensor option"

record pruner =
  model :: "(string \<times> module) list"
  alpha :: real
  beta :: real
  gamma :: real
  layerwise_scores :: "string \<rightharpoonup> tensor"

definition SmartSparsePruner_init :: "(string \<times> module) list \<Rightarrow> real \<Rightarrow> real \<Rightarrow> real \<Rightarrow> pruner" where
  "SmartSparsePruner_init m a b c =
     \<lparr>model = m, alpha = a, beta = b, gamma = c, layerwise_scores = Map.empty\<rparr>"

subsection \<open>The scoring pass\<close>

text \<open>The three normalized scores of one layer.\<close>

definition layer_metrics :: "tensor \<Rightarrow> tensor \<Rightarrow> error + tensor \<times> tensor \<times> tensor" where
  "layer_metrics w g =
     (case compute_pqi w 8 of Inl e \<Rightarrow> Inl e | Inr q \<Rightarrow>
      case normalize q of Inl e \<Rightarrow> Inl e | Inr pqi \<Rightarrow>
      case normalize (compute_movement g) of Inl e \<Rightarrow> Inl e | Inr move \<Rightarrow>
      case compute_hessian w g of Inl e \<Rightarrow> Inl e | Inr hs \<Rightarrow>
      case normalize hs of Inl e \<Rightarrow> Inl e | Inr hess \<Rightarrow>
        Inr (pqi, move, hess))"

definition fuse :: "real \<Rightarrow> real \<Rightarrow> real \<Rightarrow> tensor \<Rightarrow> tensor \<Rightarrow> tensor \<Rightarrow> tensor" where
  "fuse a b c pqi move hess =
     map (\<lambda>(p, m, h). a * p + b * m + c * h) (zip pqi (zip move hess))"

text \<open>The chained comparison \<open>self.alpha == self.beta == self.gamma == -1\<close>.\<close>

definition sentinel :: "pruner \<Rightarrow> bool" where
  "sentinel P \<longleftrightarrow> alpha P = beta P \<and> beta P = gamma P \<and> gamma P = - 1"

text \<open>The body of the loop for a linear module whose weight is at address \<open>wa\<close>.\<close>

definition score_layer :: "heap \<Rightarrow> grads \<Rightarrow> noise \<Rightarrow> string \<Rightarrow> addr \<Rightarrow> pruner \<Rightarrow> error + pruner" where
  "score_layer h gr randn name wa P =
     (case gr wa of
        None \<Rightarrow> Inr P
      | Some g \<Rightarrow>
          (case layer_metrics (h wa) g of
             Inl e \<Rightarrow> Inl e
           | Inr (pqi, move, hess) \<Rightarrow>
               (case (if sentinel P then adaptive_weights pqi move hess randn
                      else Inr (alpha P, beta P, gamma P)) of
                  Inl e \<Rightarrow> Inl e
                | Inr (a, b, c) \<Rightarrow>
                    Inr (P\<lparr>alpha := a, beta := b, gamma := c,
                           layerwise_scores :=
                             (layerwise_scores P)(name \<mapsto> fuse a b c pqi move hess)\<rparr>))))"

fun score_modules :: "heap \<Rightarrow> grads \<Rightarrow> noise \<Rightarrow> (string \<times> module) list \<Rightarrow> pruner \<Rightarrow> error + pruner" where
  "score_modules h gr randn [] P = Inr P"
| "score_modules h gr randn ((name, m) # ms) P =
     (case m of
        Linear wa b \<Rightarrow>
          (case score_layer h gr randn name wa P of
             Inl e \<Rightarrow> Inl e
           | Inr P' \<Rightarrow> score_modules h gr randn ms P')
      | Other ps \<Rightarrow> score_modules h gr randn ms P)"

definition compute_importance_scores :: "heap \<Rightarrow> grads \<Rightarrow> noise \<Rightarrow> pruner \<Rightarrow> error + pruner" where
  "compute_importance_scores h gr randn P = score_modules h gr randn (model P) P"

text \<open>Scoring passes one after the other on one pruner.\<close>

fun scoring_passes :: "pruner \<Rightarrow> (heap \<times> grads \<times> noise) list \<Rightarrow> error + pruner" where
  "scoring_passes P [] = Inr P"
| "scoring_passes P ((h, gr, randn) # rest) =
     (case compute_importance_scores h gr randn P of
        Inl e \<Rightarrow> Inl e
      | Inr P' \<Rightarrow> scoring_passes P' rest)"

text \<open>The linear layers of the model whose weight has a gradient, in traversal order.\<close>

fun observed :: "grads \<Rightarrow> (string \<times> module) list \<Rightarrow> (string \<times> addr \<times> tensor) list" where
  "observed gr [] = []"
| "observed gr ((name, m) # ms) =
     (case m of
        Linear wa b \<Rightarrow>
          (case gr wa of
             Some g \<Rightarrow> (name, wa, g) # observed gr ms
           | None \<Rightarrow> observed gr ms)
      | Other ps \<Rightarrow> observed gr ms)"

subsection \<open>Global thresholding\<close>

text \<open>
  The first loop of \<open>prune\<close>: the linear modules with an entry in the score mapping, each
  with the address of its weight and its fused score.
\<close>

fun collect :: "(string \<rightharpoonup> tensor) \<Rightarrow> (string \<times> module) list \<Rightarrow> (string \<times> addr \<times> tensor) list" where
  "collect sc [] = []"
| "collect sc ((name, m) # ms) =
     (case m of
        Linear wa b \<Rightarrow>
          (case sc name of
             Some s \<Rightarrow> (name, wa, s) # collect sc ms
           | None \<Rightarrow> collect sc ms)
      | Other ps \<Rightarrow> collect sc ms)"

definition module_map :: "pruner \<Rightarrow> (string \<times> addr \<times> tensor) list" where
  "module_map P = collect (layerwise_scores P) (model P)"

text \<open>\<open>torch.cat\<close> raises on an empty list of tensors.\<close>

definition cat :: "tensor list \<Rightarrow> error + tensor" where
  "cat ts = (if ts = [] then Inl Cat_empty_list else Inr (concat ts))"

text \<open>Python's \<open>int\<close> truncates towards zero.\<close>

definition py_int :: "real \<Rightarrow> int" where
  "py_int x = (if 0 \<le> x then \<lfloor>x\<rfloor> else \<lceil>x\<rceil>)"

text \<open>\<open>torch.topk(xs, k, largest=True).values\<close>; it raises unless \<open>0 \<le> k \<le> len(xs)\<close>.\<close>

definition topk :: "tensor \<Rightarrow> int \<Rightarrow> error + tensor" where
  "topk xs k =
     (if k < 0 \<or> int (length xs) < k then Inl Topk_out_of_range
      else Inr (take (nat k) (rev (sort xs))))"

text \<open>Indexing with \<open>[-1]\<close>.\<close>

definition last_value :: "tensor \<Rightarrow> error + real" where
  "last_value vs = (if vs = [] then Inl Index_out_of_bounds else Inr (last vs))"

definition all_scores :: "pruner \<Rightarrow> error + tensor" where
  "all_scores P = cat (map (\<lambda>(name, wa, sc). sc) (module_map P))"

definition threshold :: "pruner \<Rightarrow> real \<Rightarrow> error + real" where
  "threshold P sparsity =
     (case all_scores P of
        Inl e \<Rightarrow> Inl e
      | Inr pooled \<Rightarrow>
          (let k = py_int ((1 - sparsity) * real (length pooled))
           in case topk pooled k of
                Inl e \<Rightarrow> Inl e
              | Inr vals \<Rightarrow> last_value vals))"

definition mask :: "tensor \<Rightarrow> real \<Rightarrow> tensor" where
  "mask sc thr = map (\<lambda>x. if thr \<le> x then 1 else 0) sc"

text \<open>
  In-place multiplication of a weight by a mask of its shape; \<open>mul_\<close> raises on a mask
  of another size (the broadcasting of a smaller mask is not modelled).
\<close>

definition mul_inplace :: "tensor \<Rightarrow> tensor \<Rightarrow> error + tensor" where
  "mul_inplace w m =
     (if length w = length m then Inr (map2 (\<lambda>x y. x * y) w m) else Inl Shape_mismatch)"

text \<open>
  The second loop of \<open>prune\<close>.  The threshold is known before the loop starts, so an error
  of the threshold computation leaves every weight as it was; an error inside the loop
  is returned without the weights already masked.
\<close>

fun apply_masks :: "real \<Rightarrow> (string \<times> addr \<times> tensor) list \<Rightarrow> heap \<Rightarrow> error + heap" where
  "apply_masks thr [] h = Inr h"
| "apply_masks thr ((name, wa, sc) # rest) h =
     (case mul_inplace (h wa) (mask sc thr) of
        Inl e \<Rightarrow> Inl e
      | Inr w' \<Rightarrow> apply_masks thr rest (h(wa := w')))"

definition prune :: "pruner \<Rightarrow> heap \<Rightarrow> real \<Rightarrow> error + heap" where
  "prune P h sparsity =
     (case threshold P sparsity of
        Inl e \<Rightarrow> Inl e
      | Inr thr \<Rightarrow> apply_masks thr (module_map P) h)"

text \<open>The number of ones in the masks of all layers.\<close>

definition kept :: "real \<Rightarrow> (string \<times> addr \<times> tensor) list \<Rightarrow> nat" where
  "kept thr mm = sum_list (map (\<lambda>(name, wa, sc). length (filter (\<lambda>v. v = 1) (mask sc thr))) mm)"

subsection \<open>Concrete models used in the examples\<close>

text \<open>
  An embedding and an output projection that share one weight (address 0), as in a
  causal language model with tied embeddings, and a linear layer with a bias.
\<close>

definition tied_pruner :: pruner where
  "tied_pruner =
     \<lparr>model = [(''emb'', Other [0]), (''fc'', Linear 1 (Some 2)), (''head'', Linear 0 None)],
      alpha = 1, beta = 0, gamma = 0,
      layerwise_scores = [''fc'' \<mapsto> [1, 4], ''head'' \<mapsto> [3, 2]]\<rparr>"

definition tied_heap :: heap where
  "tied_heap = (\<lambda>a. [])(0 := [5, 7], 1 := [6, 8], 2 := [9])"

text \<open>One linear layer whose fused scores are all equal.\<close>

definition uniform_pruner :: pruner where
  "uniform_pruner =
     \<lparr>model = [(''fc'', Linear 0 None)], alpha = 1, beta = 0, gamma = 0,
      layerwise_scores = [''fc'' \<mapsto> [1, 1]]\<rparr>"

definition uniform_heap :: heap where
  "uniform_heap = (\<lambda>a. [])(0 := [5, 7])"


definition two_heap :: heap where
  "two_heap = (\<lambda>a. [])(0 := [- 1, 1, 1, 0], 1 := [1, 1], 2 := [1])"

definition two_grads :: grads where
  "two_grads = (\<lambda>a. None)(0 := Some [1, 1, 1, 3], 1 := Some [1, 1])"

definition no_grads :: grads where
  "no_grads = (\<lambda>a. None)"

section \<open>Properties of the estimators and the normalizer\<close>

















section \<open>Properties of global thresholding\<close>


lemma sorted_count_ge:
  assumes "sorted ys" and "i < length ys"
  shows "length ys - i \<le> length (filter (\<lambda>x. ys ! i \<le> (x::real)) ys)"
proof -
  have all: "\<forall>x \<in> set (drop i ys). ys ! i \<le> x"
  proof
    fix x assume "x \<in> set (drop i ys)"
    then obtain j where j: "j < length (drop i ys)" "x = drop i ys ! j"
      by (auto simp: in_set_conv_nth)
    then have "x = ys ! (i + j)" and "i + j < length ys" by auto
    with assms(1) show "ys ! i \<le> x" by (simp add: sorted_nth_mono)
  qed
  have "filter (\<lambda>x. ys ! i \<le> x) ys
        = filter (\<lambda>x. ys ! i \<le> x) (take i ys) @ filter (\<lambda>x. ys ! i \<le> x) (drop i ys)"
    by (metis append_take_drop_id filter_append)
  moreover have "filter (\<lambda>x. ys ! i \<le> x) (drop i ys) = drop i ys"
    using all by (simp add: filter_id_conv)
  ultimately show ?thesis by simp
qed


lemma count_sort:
  "length (filter P (sort xs)) = length (filter P (xs :: real list))"
proof -
  have "filter P (sort xs) = sort (filter P xs)" by (simp add: filter_sort)
  then show ?thesis by simp
qed

lemma sort_eq_Nil: "sort xs = [] \<longleftrightarrow> xs = []"
  by (metis length_sort length_0_conv)

lemma kth_largest:
  assumes "1 \<le> k" and "k \<le> length xs"
  shows "last (take k (rev (sort xs))) = sort xs ! (length xs - k)"
proof -
  have "take k (rev (sort xs)) \<noteq> []" using assms by (auto simp: sort_eq_Nil)
  then have "last (take k (rev (sort xs))) = take k (rev (sort xs)) ! (length (take k (rev (sort xs))) - 1)"
    by (rule last_conv_nth)
  also have "\<dots> = rev (sort xs) ! (k - 1)"
    using assms by simp
  also have "\<dots> = sort xs ! (length (sort xs) - Suc (k - 1))"
    using assms by (intro rev_nth) simp
  finally show ?thesis using assms by simp
qed

lemma count_kth_largest_ge:
  assumes "1 \<le> k" and "k \<le> length xs"
  shows "k \<le> length (filter (\<lambda>x. sort xs ! (length xs - k) \<le> x) (xs :: real list))"
proof -
  have "length (sort xs) - (length xs - k)
        \<le> length (filter (\<lambda>x. sort xs ! (length xs - k) \<le> x) (sort xs))"
    using assms by (intro sorted_count_ge) simp_all
  then show ?thesis using assms by (simp add: count_sort)
qed


lemma mask_ones: "length (filter (\<lambda>v. v = 1) (mask sc thr)) = length (filter (\<lambda>x. thr \<le> x) sc)"
  by (induction sc) (simp_all add: mask_def)

lemma kept_concat:
  "kept thr mm = length (filter (\<lambda>x. thr \<le> x) (concat (map (\<lambda>(name, wa, sc). sc) mm)))"
  by (induction mm) (auto simp: kept_def mask_ones)


lemma all_scores_pooled:
  "all_scores P = Inr pooled \<Longrightarrow> pooled = concat (map (\<lambda>(name, wa, sc). sc) (module_map P))"
  by (auto simp: all_scores_def cat_def split: if_splits)

lemma threshold_in_range:
  assumes "all_scores P = Inr pooled"
    and "1 \<le> py_int ((1 - sparsity) * real (length pooled))"
    and "py_int ((1 - sparsity) * real (length pooled)) \<le> int (length pooled)"
  shows "threshold P sparsity
         = Inr (sort pooled ! (length pooled - nat (py_int ((1 - sparsity) * real (length pooled)))))"
proof -
  let ?k = "py_int ((1 - sparsity) * real (length pooled))"
  have k: "1 \<le> nat ?k" "nat ?k \<le> length pooled" using assms(2,3) by auto
  have "pooled \<noteq> []" using k by auto
  then have ne: "take (nat ?k) (rev (sort pooled)) \<noteq> []" using k by (auto simp: sort_eq_Nil)
  show ?thesis
    using assms ne kth_largest [OF k]
    by (simp add: threshold_def topk_def last_value_def Let_def)
qed



lemmas prune_eval = prune_def threshold_def all_scores_def module_map_def cat_def py_int_def
  topk_def last_value_def mul_inplace_def mask_def





text \<open>
  Claim C2 says that sparsity 1.0 does not crash and that uniform scores are then all
  kept.  On the code, \<open>k = 0\<close>, \<open>topk\<close> returns no values, and indexing them with
  \<open>[-1]\<close> raises: no weight is masked or kept, the call fails.
\<close>

theorem prune_sparsity_one_uniform:
  "all_scores uniform_pruner = Inr [1, 1]
   \<and> py_int ((1 - 1) * real (length [1, 1 :: real])) = 0
   \<and> topk [1, 1] 0 = Inr []
   \<and> prune uniform_pruner uniform_heap 1 = Inl Index_out_of_bounds"
  by (simp add: prune_eval uniform_pruner_def)

text \<open>The same at every pool, and the other boundary: sparsity 0 keeps every weight.\<close>

lemma prune_sparsity_one:
  assumes "all_scores P = Inr pooled"
  shows "prune P h 1 = Inl Index_out_of_bounds"
  using assms by (simp add: prune_def threshold_def py_int_def topk_def last_value_def)

lemma prune_sparsity_zero:
  assumes "all_scores P = Inr pooled" and "pooled \<noteq> []"
  shows "threshold P 0 = Inr (sort pooled ! 0) \<and> kept (sort pooled ! 0) (module_map P) = length pooled"
proof -
  have k: "py_int ((1 - 0) * real (length pooled)) = int (length pooled)"
    by (simp add: py_int_def)
  have n: "1 \<le> length pooled" using assms(2) by (cases pooled) auto
  have t: "threshold P 0 = Inr (sort pooled ! 0)"
    using threshold_in_range [OF assms(1), of 0] k n by simp
  have "length pooled \<le> kept (sort pooled ! 0) (module_map P)"
    using count_kth_largest_ge [of "length pooled" pooled] n
    by (simp add: kept_concat all_scores_pooled [OF assms(1), symmetric])
  moreover have "kept (sort pooled ! 0) (module_map P) \<le> length pooled"
    by (simp add: kept_concat all_scores_pooled [OF assms(1), symmetric])
  ultimately show ?thesis using t by simp
qed

lemma collect_empty: "collect Map.empty ms = []"
  by (induction ms) (auto split: module.splits)

text \<open>
  Claim C8.  When the fused-score mapping is empty, \<open>prune\<close> fails with the error that
  \<open>torch.cat\<close> raises on an empty list; it returns no store, so nothing is pruned
  silently.
\<close>

theorem prune_empty_scores:
  assumes "layerwise_scores P = Map.empty"
  shows "prune P h sparsity = Inl Cat_empty_list"
  using assms
  by (simp add: prune_def threshold_def all_scores_def module_map_def cat_def collect_empty)

theorem prune_empty_scores_witness:
  "layerwise_scores (SmartSparsePruner_init [(''fc'', Linear 0 None)] 1 0 0) = Map.empty
   \<and> prune (SmartSparsePruner_init [(''fc'', Linear 0 None)] 1 0 0) uniform_heap (1 / 2)
       = Inl Cat_empty_list"
  using prune_empty_scores [of "SmartSparsePruner_init [(''fc'', Linear 0 None)] 1 0 0" uniform_heap "1 / 2"]
  by (simp add: SmartSparsePruner_init_def)




lemma collect_iff:
  "(name, wa, sc) \<in> set (collect s ms)
   \<longleftrightarrow> (\<exists>b. (name, Linear wa b) \<in> set ms) \<and> s name = Some sc"
  by (induction ms) (auto split: module.splits option.splits)

lemma apply_masks_frame:
  assumes "apply_masks thr mm h = Inr h'"
    and "\<forall>(name, wa, sc) \<in> set mm. wa \<noteq> a"
  shows "h' a = h a"
  using assms
proof (induction mm arbitrary: h)
  case Nil
  then show ?case by simp
next
  case (Cons e mm)
  obtain name wa sc where e: "e = (name, wa, sc)" by (cases e) auto
  from Cons.prems(1) e obtain w' where
    w': "mul_inplace (h wa) (mask sc thr) = Inr w'"
    and rest: "apply_masks thr mm (h(wa := w')) = Inr h'"
    by (auto split: sum.splits)
  have "h' a = (h(wa := w')) a"
    using Cons.IH [OF rest] Cons.prems(2) by simp
  then show ?case using Cons.prems(2) e by simp
qed

lemma apply_masks_distinct:
  assumes "apply_masks thr mm h = Inr h'"
    and "distinct (map (\<lambda>(name, wa, sc). wa) mm)"
    and "(name, wa, sc) \<in> set mm"
  shows "h' wa = map2 (\<lambda>x y. x * y) (h wa) (mask sc thr)"
  using assms
proof (induction mm arbitrary: h)
  case Nil
  then show ?case by simp
next
  case (Cons e mm)
  obtain name1 wa1 sc1 where e: "e = (name1, wa1, sc1)" by (cases e) auto
  from Cons.prems(1) e obtain w' where
    w': "mul_inplace (h wa1) (mask sc1 thr) = Inr w'"
    and rest: "apply_masks thr mm (h(wa1 := w')) = Inr h'"
    by (auto split: sum.splits)
  have fresh: "\<forall>(name', wa', sc') \<in> set mm. wa' \<noteq> wa1"
    using Cons.prems(2) e by (auto simp: image_iff)
  have d: "distinct (map (\<lambda>(name, wa, sc). wa) mm)" using Cons.prems(2) by simp
  show ?case
  proof (cases "(name, wa, sc) = (name1, wa1, sc1)")
    case True
    have "h' wa1 = (h(wa1 := w')) wa1"
      by (rule apply_masks_frame [OF rest fresh])
    then show ?thesis using True w' by (auto simp: mul_inplace_def split: if_splits)
  next
    case False
    then have mem: "(name, wa, sc) \<in> set mm" using Cons.prems(3) e by auto
    then have "wa \<noteq> wa1" using fresh by auto
    then show ?thesis using Cons.IH [OF rest d mem] by simp
  qed
qed

text \<open>
  Claim C10, as the code has it.  After a successful \<open>prune\<close>, every parameter whose address
  is not that of the weight of a scored linear module is unchanged; and when the scored
  linear modules have pairwise distinct weights, each such weight is its old value
  multiplied elementwise by its mask.
\<close>

theorem prune_frame:
  assumes "prune P h sparsity = Inr h'"
  shows "(\<forall>a. (\<forall>name wa b. (name, Linear wa b) \<in> set (model P)
                  \<longrightarrow> layerwise_scores P name \<noteq> None \<longrightarrow> wa \<noteq> a) \<longrightarrow> h' a = h a)
       \<and> (distinct (map (\<lambda>(name, wa, sc). wa) (module_map P)) \<longrightarrow>
            (\<exists>thr. threshold P sparsity = Inr thr
               \<and> (\<forall>name wa b sc. (name, Linear wa b) \<in> set (model P)
                     \<longrightarrow> layerwise_scores P name = Some sc
                     \<longrightarrow> h' wa = map2 (\<lambda>x y. x * y) (h wa) (mask sc thr))))"
proof -
  from assms obtain thr where thr: "threshold P sparsity = Inr thr"
    and app: "apply_masks thr (module_map P) h = Inr h'"
    by (auto simp: prune_def split: sum.splits)
  have a: "h' a = h a"
    if "\<forall>name wa b. (name, Linear wa b) \<in> set (model P)
          \<longrightarrow> layerwise_scores P name \<noteq> None \<longrightarrow> wa \<noteq> a" for a
  proof (rule apply_masks_frame [OF app])
    have "wa \<noteq> a" if mem: "(name, wa, sc) \<in> set (module_map P)" for name wa sc
    proof -
      from mem obtain b where "(name, Linear wa b) \<in> set (model P)"
        and "layerwise_scores P name = Some sc"
        unfolding module_map_def collect_iff by blast
      with \<open>\<forall>name wa b. (name, Linear wa b) \<in> set (model P)
          \<longrightarrow> layerwise_scores P name \<noteq> None \<longrightarrow> wa \<noteq> a\<close>
      show ?thesis by (metis option.distinct(1))
    qed
    then show "\<forall>(name, wa, sc) \<in> set (module_map P). wa \<noteq> a" by blast
  qed
  have b: "h' wa = map2 (\<lambda>x y. x * y) (h wa) (mask sc thr)"
    if "distinct (map (\<lambda>(name, wa, sc). wa) (module_map P))"
      and "(name, Linear wa b) \<in> set (model P)" and "layerwise_scores P name = Some sc"
    for name wa b sc
  proof (rule apply_masks_distinct [OF app that(1)])
    show "(name, wa, sc) \<in> set (module_map P)"
      using that(2,3) by (auto simp: module_map_def collect_iff)
  qed
  from a b thr show ?thesis by blast
qed

text \<open>
  Claim C10 says that the parameters of non-linear layers are left unchanged.  The
  parameter of the embedding \<open>emb\<close> is the weight of the scored linear module
  \<open>head\<close> (tied weights): pruning \<open>head\<close> changes it.
\<close>

theorem prune_tied_weight_counterexample:
  "(''emb'', Other [0]) \<in> set (model tied_pruner)
   \<and> tied_heap 0 = [5, 7]
   \<and> map_sum id (\<lambda>h'. h' 0) (prune tied_pruner tied_heap (1 / 2)) = Inr [5, 0]"
  by (simp add: prune_eval tied_pruner_def tied_heap_def)

theorem prune_frame_witness:
  "map_sum id (\<lambda>h'. map h' [0, 1, 2]) (prune tied_pruner tied_heap (1 / 2)) = Inr [[5, 0], [0, 8], [9]]
   \<and> module_map tied_pruner = [(''fc'', 1, [1, 4]), (''head'', 0, [3, 2])]
   \<and> distinct (map (\<lambda>(name, wa, sc). wa) (module_map tied_pruner))
   \<and> threshold tied_pruner (1 / 2) = Inr 3
   \<and> tied_heap 2 = [9]"
proof -
  obtain h' where h': "prune tied_pruner tied_heap (1 / 2) = Inr h'"
    by (simp add: prune_eval tied_pruner_def tied_heap_def)
  have mm: "module_map tied_pruner = [(''fc'', 1, [1, 4]), (''head'', 0, [3, 2])]"
    by (simp add: module_map_def tied_pruner_def)
  have d: "distinct (map (\<lambda>(name, wa, sc). wa) (module_map tied_pruner))"
    by (simp add: mm)
  have f: "\<forall>name wa b. (name, Linear wa b) \<in> set (model tied_pruner)
          \<longrightarrow> layerwise_scores tied_pruner name \<noteq> None \<longrightarrow> wa \<noteq> 2"
    by (simp add: tied_pruner_def)
  have t: "threshold tied_pruner (1 / 2) = Inr 3"
    by (simp add: prune_eval tied_pruner_def)
  from prune_frame [OF h'] f d t
  have "h' 2 = tied_heap 2 \<and> h' 1 = map2 (\<lambda>x y. x * y) (tied_heap 1) (mask [1, 4] 3)
        \<and> h' 0 = map2 (\<lambda>x y. x * y) (tied_heap 0) (mask [3, 2] 3)"
    by (simp add: tied_pruner_def)
  then have "map h' [0, 1, 2] = [[5, 0], [0, 8], [9]]"
    by (simp add: tied_heap_def mask_def)
  moreover have "tied_heap 2 = [9]" by (simp add: tied_heap_def)
  ultimately show ?thesis using h' mm d t by simp
qed

section \<open>Properties of the scoring pass\<close>

lemma normalize_length: "normalize xs = Inr ys \<Longrightarrow> length ys = length xs"
  by (auto simp: normalize_def Let_def split: if_splits)

lemma compute_pqi_length: "compute_pqi w bits = Inr q \<Longrightarrow> length q = length w"
  by (auto simp: compute_pqi_def Let_def split: if_splits)

lemma compute_hessian_length:
  "compute_hessian w g = Inr hs \<Longrightarrow> length hs = length w \<and> length g = length w"
  by (auto simp: compute_hessian_def split: if_splits)

lemma layer_metrics_length:
  assumes "layer_metrics w g = Inr (pqi, move, hess)"
  shows "length pqi = length w \<and> length move = length w \<and> length hess = length w"
proof -
  from assms obtain q hs where q: "compute_pqi w 8 = Inr q" and p: "normalize q = Inr pqi"
    and m: "normalize (compute_movement g) = Inr move"
    and hs: "compute_hessian w g = Inr hs" and hn: "normalize hs = Inr hess"
    by (auto simp: layer_metrics_def split: sum.splits)
  have "length move = length g"
    using normalize_length [OF m] by (simp add: compute_movement_def)
  then show ?thesis
    using normalize_length [OF p] compute_pqi_length [OF q]
      normalize_length [OF hn] compute_hessian_length [OF hs] by simp
qed

lemma layer_metrics_pqi:
  assumes "layer_metrics w g = Inr (pqi, move, hess)"
  shows "\<exists>q. compute_pqi w 8 = Inr q \<and> normalize q = Inr pqi"
  using assms by (auto simp: layer_metrics_def split: sum.splits)

lemma normalize_defined: "2 \<le> length xs \<Longrightarrow> \<exists>ys. normalize xs = Inr ys"
  by (auto simp: normalize_def Let_def)

lemma layer_metrics_defined:
  assumes "length g = length w" and "2 \<le> length g"
  shows "\<exists>pqi move hess. layer_metrics w g = Inr (pqi, move, hess)"
proof -
  have "w \<noteq> []" using assms by auto
  then have "\<exists>q. compute_pqi w 8 = Inr q"
    by (simp add: compute_pqi_def Let_def)
  then obtain q where q: "compute_pqi w 8 = Inr q" ..
  have "2 \<le> length q" using compute_pqi_length [OF q] assms by simp
  then obtain pqi where p: "normalize q = Inr pqi" using normalize_defined by blast
  have "2 \<le> length (compute_movement g)" using assms by (simp add: compute_movement_def)
  then obtain move where m: "normalize (compute_movement g) = Inr move"
    using normalize_defined by blast
  obtain hs where hs: "compute_hessian w g = Inr hs"
    using assms by (simp add: compute_hessian_def)
  have "2 \<le> length hs" using compute_hessian_length [OF hs] assms by simp
  then obtain hess where hn: "normalize hs = Inr hess" using normalize_defined by blast
  show ?thesis by (simp add: layer_metrics_def q p m hs hn)
qed

lemma fuse_pqi_only:
  assumes "length move = length pqi" and "length hess = length pqi"
  shows "fuse 1 0 0 pqi move hess = pqi"
proof -
  have "length pqi = length move" "length move = length hess" using assms by simp_all
  then show ?thesis
    by (induction pqi move hess rule: list_induct3) (simp_all add: fuse_def)
qed


lemma observed_iff:
  "(name, wa, g) \<in> set (observed gr ms)
   \<longleftrightarrow> (\<exists>b. (name, Linear wa b) \<in> set ms) \<and> gr wa = Some g"
  by (induction ms) (auto split: module.splits option.splits)

lemma score_layer_result:
  assumes "score_layer h gr z name wa P = Inr P'" and "gr wa = Some g"
  shows "\<exists>pqi move hess a b c. layer_metrics (h wa) g = Inr (pqi, move, hess)
          \<and> (if sentinel P then adaptive_weights pqi move hess z else Inr (alpha P, beta P, gamma P))
              = Inr (a, b, c)
          \<and> P' = P\<lparr>alpha := a, beta := b, gamma := c,
                   layerwise_scores := (layerwise_scores P)(name \<mapsto> fuse a b c pqi move hess)\<rparr>"
  using assms by (auto simp: score_layer_def split: sum.splits prod.splits split del: if_split)

lemma score_layer_dom:
  assumes "score_layer h gr z name wa P = Inr P'"
  shows "model P' = model P
       \<and> dom (layerwise_scores P') =
           (case gr wa of None \<Rightarrow> dom (layerwise_scores P)
            | Some g \<Rightarrow> insert name (dom (layerwise_scores P)))"
proof (cases "gr wa")
  case None
  then show ?thesis using assms by (simp add: score_layer_def)
next
  case (Some g)
  from score_layer_result [OF assms Some] show ?thesis using Some by auto
qed

lemma score_modules_dom:
  assumes "score_modules h gr z ms P = Inr P'"
  shows "model P' = model P
       \<and> dom (layerwise_scores P') = dom (layerwise_scores P) \<union> fst ` set (observed gr ms)"
  using assms
proof (induction ms arbitrary: P)
  case Nil
  then show ?case by simp
next
  case (Cons e ms)
  obtain name m where e: "e = (name, m)" by (cases e) auto
  show ?case
  proof (cases m)
    case (Linear wa b)
    from Cons.prems e Linear obtain P1 where
      P1: "score_layer h gr z name wa P = Inr P1" and rest: "score_modules h gr z ms P1 = Inr P'"
      by (auto split: sum.splits)
    from score_layer_dom [OF P1] Cons.IH [OF rest] show ?thesis
      using e Linear by (auto split: option.splits)
  next
    case (Other ps)
    then show ?thesis using Cons e by simp
  qed
qed

lemma compute_importance_scores_dom:
  assumes "compute_importance_scores h gr z P = Inr P'"
  shows "model P' = model P
       \<and> dom (layerwise_scores P') = dom (layerwise_scores P) \<union> fst ` set (observed gr (model P))"
  using score_modules_dom assms unfolding compute_importance_scores_def by blast

text \<open>The scores of a layer whose weight and gradient are constant.\<close>

lemma pqi_ones: "compute_pqi [1, 1] 8 = Inr [0, 0]"
  by (simp add: compute_pqi_def)

lemma normalize_zeros: "normalize [0, 0] = Inr [0, 0]"
  by (simp add: normalize_def mean_def std_def)

lemma metrics_ones: "layer_metrics [1, 1] [1, 1] = Inr ([0, 0], [0, 0], [0, 0])"
  by (simp add: layer_metrics_def compute_pqi_def normalize_def mean_def std_def
      compute_movement_def compute_hessian_def)

text \<open>
  Claim C9, as the code has it.  The score mapping is created empty by the constructor and
  a scoring pass only adds or overwrites entries: after any sequence of passes the mapping
  has an entry exactly for the entries it had before and the linear layers whose gradient
  was observed in at least one of the passes.
\<close>

theorem scoring_passes_entries:
  assumes "scoring_passes P runs = Inr P'"
  shows "dom (layerwise_scores P')
         = dom (layerwise_scores P) \<union> (\<Union>(h, gr, z) \<in> set runs. fst ` set (observed gr (model P)))"
  using assms
proof (induction runs arbitrary: P)
  case Nil
  then show ?case by simp
next
  case (Cons r runs)
  obtain h gr z where r: "r = (h, gr, z)" by (cases r) auto
  from Cons.prems r obtain P1 where
    P1: "compute_importance_scores h gr z P = Inr P1" and rest: "scoring_passes P1 runs = Inr P'"
    by (auto split: sum.splits)
  from compute_importance_scores_dom [OF P1] Cons.IH [OF rest] show ?case
    using r by auto
qed

text \<open>
  Claim C9 says that only the layers observed in the most recent pass have an entry.  After
  a pass that observes \<open>fc2\<close> and a second pass that observes no layer, the entry of
  \<open>fc2\<close> is still there.
\<close>

theorem stale_entry_counterexample:
  "map_sum id (\<lambda>P'. layerwise_scores P' ''fc2'')
     (scoring_passes (SmartSparsePruner_init [(''fc2'', Linear 1 (Some 2))] 1 0 0)
        [(two_heap, two_grads, (0, 0, 0)), (two_heap, no_grads, (0, 0, 0))])
     = Inr (Some [0, 0])
   \<and> observed no_grads [(''fc2'', Linear 1 (Some 2))] = []"
  by (simp add: compute_importance_scores_def score_layer_def SmartSparsePruner_init_def
      sentinel_def two_heap_def two_grads_def no_grads_def metrics_ones fuse_def)

text \<open>The theorem on the same two passes: the entry of the first pass is the only one.\<close>

theorem scoring_passes_entries_witness:
  "map_sum id (\<lambda>P'. dom (layerwise_scores P'))
     (scoring_passes (SmartSparsePruner_init [(''fc2'', Linear 1 (Some 2))] 1 0 0)
        [(two_heap, two_grads, (0, 0, 0)), (two_heap, no_grads, (0, 0, 0))])
     = Inr {''fc2''}"
proof -
  let ?P = "SmartSparsePruner_init [(''fc2'', Linear 1 (Some 2))] 1 0 0"
  let ?runs = "[(two_heap, two_grads, (0, 0, 0)), (two_heap, no_grads, (0 :: real, 0 :: real, 0 :: real))]"
  have "\<exists>P'. scoring_passes ?P ?runs = Inr P'"
    by (simp add: compute_importance_scores_def score_layer_def SmartSparsePruner_init_def
      sentinel_def two_heap_def two_grads_def no_grads_def metrics_ones fuse_def)
  then obtain P' where P': "scoring_passes ?P ?runs = Inr P'" ..
  from scoring_passes_entries [OF P']
  have "dom (layerwise_scores P') = {''fc2''}"
    by (simp add: SmartSparsePruner_init_def two_grads_def no_grads_def)
  with P' show ?thesis by simp
qed

lemma score_modules_fixed:
  assumes "\<not> sentinel P" and "score_modules h gr z ms P = Inr P'"
  shows "alpha P' = alpha P \<and> beta P' = beta P \<and> gamma P' = gamma P
       \<and> (\<forall>n. n \<notin> fst ` set ms \<longrightarrow> layerwise_scores P' n = layerwise_scores P n)
       \<and> (distinct (map fst ms) \<longrightarrow>
            (\<forall>(name, wa, g) \<in> set (observed gr ms).
               \<exists>pqi move hess. layer_metrics (h wa) g = Inr (pqi, move, hess)
                 \<and> layerwise_scores P' name
                     = Some (fuse (alpha P) (beta P) (gamma P) pqi move hess)))"
  using assms
proof (induction ms arbitrary: P)
  case Nil
  then show ?case by simp
next
  case (Cons e ms)
  obtain name m where e: "e = (name, m)" by (cases e) auto
  show ?case
  proof (cases m)
    case (Other ps)
    with Cons.prems e have "score_modules h gr z ms P = Inr P'" by simp
    from Cons.IH [OF Cons.prems(1) this] show ?thesis using e Other by simp
  next
    case (Linear wa b)
    from Cons.prems(2) e Linear obtain P1 where
      P1: "score_layer h gr z name wa P = Inr P1" and rest: "score_modules h gr z ms P1 = Inr P'"
      by (auto split: sum.splits)
    show ?thesis
    proof (cases "gr wa")
      case None
      then have "P1 = P" using P1 by (simp add: score_layer_def)
      with Cons.IH [OF Cons.prems(1)] rest show ?thesis using e Linear None by simp
    next
      case (Some g)
      from score_layer_result [OF P1 Some] Cons.prems(1) obtain pqi move hess where
        lm: "layer_metrics (h wa) g = Inr (pqi, move, hess)"
        and P1eq: "P1 = P\<lparr>layerwise_scores :=
                     (layerwise_scores P)(name \<mapsto> fuse (alpha P) (beta P) (gamma P) pqi move hess)\<rparr>"
        by auto
      have ns: "\<not> sentinel P1" using Cons.prems(1) by (simp add: P1eq sentinel_def)
      note IH = Cons.IH [OF ns rest]
      have abc: "alpha P' = alpha P \<and> beta P' = beta P \<and> gamma P' = gamma P"
        using IH by (simp add: P1eq)
      have untouched: "\<forall>n. n \<notin> fst ` set (e # ms) \<longrightarrow> layerwise_scores P' n = layerwise_scores P n"
        using IH by (simp add: P1eq e)
      have scored: "\<forall>(name', wa', g') \<in> set (observed gr (e # ms)).
               \<exists>pqi move hess. layer_metrics (h wa') g' = Inr (pqi, move, hess)
                 \<and> layerwise_scores P' name'
                     = Some (fuse (alpha P) (beta P) (gamma P) pqi move hess)"
        if d: "distinct (map fst (e # ms))"
      proof -
        have fresh: "name \<notin> fst ` set ms" using d e by simp
        then have "layerwise_scores P' name = layerwise_scores P1 name" using IH by blast
        then have here: "layerwise_scores P' name
                     = Some (fuse (alpha P) (beta P) (gamma P) pqi move hess)"
          by (simp add: P1eq)
        have "distinct (map fst ms)" using d by simp
        with IH have there: "\<forall>(name', wa', g') \<in> set (observed gr ms).
               \<exists>pqi move hess. layer_metrics (h wa') g' = Inr (pqi, move, hess)
                 \<and> layerwise_scores P' name'
                     = Some (fuse (alpha P) (beta P) (gamma P) pqi move hess)"
          by (simp add: P1eq)
        show ?thesis using here there lm by (simp add: e Linear Some)
      qed
      from abc untouched scored show ?thesis by blast
    qed
  qed
qed

lemma score_modules_fixed_defined:
  assumes "\<not> sentinel P"
    and "\<forall>(name, wa, g) \<in> set (observed gr ms). length g = length (h wa) \<and> 2 \<le> length g"
  shows "\<exists>P'. score_modules h gr z ms P = Inr P'"
  using assms
proof (induction ms arbitrary: P)
  case Nil
  then show ?case by simp
next
  case (Cons e ms)
  obtain name m where e: "e = (name, m)" by (cases e) auto
  show ?case
  proof (cases m)
    case (Other ps)
    with Cons e show ?thesis by simp
  next
    case (Linear wa b)
    show ?thesis
    proof (cases "gr wa")
      case None
      with Cons e Linear show ?thesis by (simp add: score_layer_def)
    next
      case (Some g)
      have "length g = length (h wa) \<and> 2 \<le> length g"
        using Cons.prems(2) by (simp add: e Linear Some)
      then obtain pqi move hess where lm: "layer_metrics (h wa) g = Inr (pqi, move, hess)"
        using layer_metrics_defined by blast
      let ?P1 = "P\<lparr>layerwise_scores :=
                     (layerwise_scores P)(name \<mapsto> fuse (alpha P) (beta P) (gamma P) pqi move hess)\<rparr>"
      have sl: "score_layer h gr z name wa P = Inr ?P1"
        using Cons.prems(1) Some lm by (simp add: score_layer_def)
      have ns: "\<not> sentinel ?P1" using Cons.prems(1) by (simp add: sentinel_def)
      have "\<forall>(name, wa, g) \<in> set (observed gr ms). length g = length (h wa) \<and> 2 \<le> length g"
        using Cons.prems(2) by (simp add: e Linear Some)
      from Cons.IH [OF ns this] show ?thesis by (simp add: e Linear sl)
    qed
  qed
qed

text \<open>
  Claim C6.  With \<open>alpha = 1\<close>, \<open>beta = 0\<close> and \<open>gamma = 0\<close> the scoring pass returns and
  the fused score stored for every observed linear layer is the normalized
  quantization-error score of its weight.
\<close>

theorem fixed_mode_pqi_only:
  assumes "alpha P = 1" and "beta P = 0" and "gamma P = 0"
    and "distinct (map fst (model P))"
    and "\<forall>(name, wa, g) \<in> set (observed gr (model P)). length g = length (h wa) \<and> 2 \<le> length g"
  shows "\<exists>P'. compute_importance_scores h gr z P = Inr P'
          \<and> (\<forall>(name, wa, g) \<in> set (observed gr (model P)).
               \<exists>q pqi. compute_pqi (h wa) 8 = Inr q \<and> normalize q = Inr pqi
                 \<and> layerwise_scores P' name = Some pqi)"
proof -
  have ns: "\<not> sentinel P" using assms(1-3) by (simp add: sentinel_def)
  from score_modules_fixed_defined [OF ns assms(5)] obtain P' where
    P': "score_modules h gr z (model P) P = Inr P'" by blast
  note F = score_modules_fixed [OF ns P']
  have "\<exists>q pqi. compute_pqi (h wa) 8 = Inr q \<and> normalize q = Inr pqi
          \<and> layerwise_scores P' name = Some pqi"
    if mem: "(name, wa, g) \<in> set (observed gr (model P))" for name wa g
  proof -
    from F assms(4) mem obtain pqi move hess where
      lm: "layer_metrics (h wa) g = Inr (pqi, move, hess)"
      and sc: "layerwise_scores P' name = Some (fuse (alpha P) (beta P) (gamma P) pqi move hess)"
      by blast
    have "fuse 1 0 0 pqi move hess = pqi"
      using layer_metrics_length [OF lm] by (intro fuse_pqi_only) simp_all
    with sc assms(1-3) have "layerwise_scores P' name = Some pqi" by simp
    with layer_metrics_pqi [OF lm] show ?thesis by blast
  qed
  then show ?thesis using P' unfolding compute_importance_scores_def by blast
qed

text \<open>The theorem on a layer with constant weight: its stored score is the normalized estimate.\<close>

theorem fixed_mode_pqi_only_witness:
  "alpha (SmartSparsePruner_init [(''fc2'', Linear 1 (Some 2))] 1 0 0) = 1
   \<and> beta (SmartSparsePruner_init [(''fc2'', Linear 1 (Some 2))] 1 0 0) = 0
   \<and> gamma (SmartSparsePruner_init [(''fc2'', Linear 1 (Some 2))] 1 0 0) = 0
   \<and> distinct (map fst (model (SmartSparsePruner_init [(''fc2'', Linear 1 (Some 2))] 1 0 0)))
   \<and> observed two_grads (model (SmartSparsePruner_init [(''fc2'', Linear 1 (Some 2))] 1 0 0))
       = [(''fc2'', 1, [1, 1])]
   \<and> length [1, 1 :: real] = length (two_heap 1) \<and> 2 \<le> length [1, 1 :: real]
   \<and> compute_pqi (two_heap 1) 8 = Inr [0, 0] \<and> normalize [0, 0] = Inr [0, 0]
   \<and> map_sum id (\<lambda>P'. layerwise_scores P' ''fc2'')
        (compute_importance_scores two_heap two_grads (0, 0, 0)
           (SmartSparsePruner_init [(''fc2'', Linear 1 (Some 2))] 1 0 0))
       = Inr (Some [0, 0])"
proof -
  let ?P = "SmartSparsePruner_init [(''fc2'', Linear 1 (Some 2))] 1 0 0"
  have a: "alpha ?P = 1" "beta ?P = 0" "gamma ?P = 0"
    by (simp_all add: SmartSparsePruner_init_def)
  have d: "distinct (map fst (model ?P))" by (simp add: SmartSparsePruner_init_def)
  have o: "observed two_grads (model ?P) = [(''fc2'', 1, [1, 1])]"
    by (simp add: SmartSparsePruner_init_def two_grads_def)
  have l: "length [1, 1 :: real] = length (two_heap 1)" "2 \<le> length [1, 1 :: real]"
    by (simp_all add: two_heap_def)
  have wf: "\<forall>(name, wa, g) \<in> set (observed two_grads (model ?P)).
              length g = length (two_heap wa) \<and> 2 \<le> length g"
    by (simp only: o) (simp add: two_heap_def)
  have q: "compute_pqi (two_heap 1) 8 = Inr [0, 0]"
    by (simp add: two_heap_def pqi_ones)
  from fixed_mode_pqi_only [OF a d wf, of "(0, 0, 0)"] obtain P' where
    P': "compute_importance_scores two_heap two_grads (0, 0, 0) ?P = Inr P'"
    and all: "\<forall>(name, wa, g) \<in> set (observed two_grads (model ?P)).
               \<exists>q pqi. compute_pqi (two_heap wa) 8 = Inr q \<and> normalize q = Inr pqi
                 \<and> layerwise_scores P' name = Some pqi"
    by blast
  from all have sc: "\<exists>q pqi. compute_pqi (two_heap 1) 8 = Inr q \<and> normalize q = Inr pqi
                 \<and> layerwise_scores P' ''fc2'' = Some pqi"
    unfolding o by simp
  from sc q normalize_zeros have "layerwise_scores P' ''fc2'' = Some [0, 0]" by auto
  with P' a d o l q normalize_zeros show ?thesis by simp
qed

















end
